theory Spec2Isabelle
  imports Main "HOL-Library.Word" "HOL-Library.Sublist"
begin

section \<open>Artifacts of a Jenkins build: saving, downloading and verifying\<close>

text \<open>
  A shallow embedding of \<^verbatim>\<open>jenkinsapi/artifact.py\<close>: the class \<^verbatim>\<open>Artifact\<close> with its
  methods \<^verbatim>\<open>save\<close>, \<^verbatim>\<open>save_to_dir\<close>, \<^verbatim>\<open>_do_download\<close>, \<^verbatim>\<open>_verify_download\<close> and
  \<^verbatim>\<open>_md5sum\<close>. Isabelle names cannot start with an underscore, so the private methods
  are \<open>do_download\<close>, \<open>verify_download\<close> and \<open>md5sum\<close> here.

  A method returns \<open>None\<close> when it does not return at all, \<open>Some (Inl e, s)\<close> when it
  raises \<open>e\<close> and leaves the state \<open>s\<close>, and \<open>Some (Inr v, s)\<close> when it returns \<open>v\<close>.
\<close>

subsection \<open>Python values\<close>

type_synonym byte = "8 word"
type_synonym bytes = "byte list"
type_synonym path = string

text \<open>
  The two kinds of value that meet in \<^verbatim>\<open>iter(lambda: f.read(chunksize), "")\<close>: a binary
  read yields \<^verbatim>\<open>bytes\<close>, the sentinel is a \<^verbatim>\<open>str\<close>. Python's \<^verbatim>\<open>==\<close> between the two is
  always false, as equality of the two constructors is.
\<close>

datatype pyval = PyBytes bytes | PyStr string

text \<open>The exceptions that the module raises or lets through.\<close>

datatype exn =
    ArtifactBroken string
  | AttributeError
  | AssertionError
  | FileNotFoundError path
  | IsADirectoryError path
  | OSError path
  | ValueError
  | OverflowError
  | MemoryError
  | External string

subsection \<open>The collaborators\<close>

text \<open>
  \<^verbatim>\<open>hashlib.md5\<close> is the standard library's: a hash object is created, fed with
  \<^verbatim>\<open>update\<close> and read with \<^verbatim>\<open>hexdigest\<close>. The three operations are parameters.
\<close>

record 'h md5_impl =
  md5_new :: 'h
  md5_update :: "'h \<Rightarrow> bytes \<Rightarrow> 'h"
  md5_hexdigest :: "'h \<Rightarrow> string"

text \<open>
  What the library documents of \<^verbatim>\<open>update\<close>: repeated calls are equivalent to a single
  call with the concatenation of the arguments, and feeding nothing changes nothing.
\<close>

definition hashlib_streaming :: "'h md5_impl \<Rightarrow> bool" where
  "hashlib_streaming H \<longleftrightarrow>
     (\<forall>h. md5_update H h [] = h) \<and>
     (\<forall>h a b. md5_update H (md5_update H h a) b = md5_update H h (a @ b))"

text \<open>
  The class \<^verbatim>\<open>Build\<close> is not among the sources. The artifact reads three things of its
  build: \<^verbatim>\<open>build.job.get_full_name()\<close>, \<^verbatim>\<open>build.buildno\<close> and
  \<^verbatim>\<open>build.job.jenkins.baseurl\<close>.
\<close>

record build =
  job_full_name :: string
  buildno :: int
  baseurl :: string

text \<open>
  The server and the operating system, as far as the artifact calls them.
  \<^item> \<open>validate_for_build E baseurl md5 filename job buildno\<close> stands for
    \<^verbatim>\<open>fp = Fingerprint(baseurl, md5, jenkins); valid = fp.validate_for_build(filename, job, buildno)\<close>:
    \<open>Inl e\<close> when the lookup raises, otherwise \<open>Inr (valid, unknown)\<close> with the value
    returned and the attribute \<^verbatim>\<open>fp.unknown\<close> as it is after the call. The class
    \<^verbatim>\<open>Fingerprint\<close> is not among the sources, so the two booleans are independent here.
  \<^item> \<open>get_and_confirm_status E b url\<close> stands for
    \<^verbatim>\<open>build.get_jenkins_obj().requester.get_and_confirm_status(url, stream=True)\<close>
    followed by \<^verbatim>\<open>iter_content\<close>: \<open>Inl e\<close> when the request raises, otherwise the chunks
    of the body and the failure, if any, that ends the stream early.
  \<^item> \<open>open_wb E p\<close> tells whether \<^verbatim>\<open>open(p, "wb")\<close> succeeds at a path that is not a
    directory.
  \<^item> \<open>alloc_max E\<close> is the largest number of bytes that the interpreter can allocate for
    one \<^verbatim>\<open>read\<close> on this machine.
\<close>

record 'h env =
  hashlib_md5 :: "'h md5_impl"
  validate_for_build :: "string \<Rightarrow> string \<Rightarrow> string \<Rightarrow> string \<Rightarrow> int \<Rightarrow> string + (bool \<times> bool)"
  get_and_confirm_status :: "build \<Rightarrow> string \<Rightarrow> string + (bytes list \<times> string option)"
  open_wb :: "path \<Rightarrow> bool"
  alloc_max :: nat

subsection \<open>The artifact and the state of a call\<close>

record artifact =
  filename :: string
  url :: string
  build :: "build option"
  relative_path :: "string option"

datatype node = File bytes | Dir

datatype level = INFO | WARNING

text \<open>
  What a call leaves behind besides the files: the lines it logs, and an entry for each
  call of \<^verbatim>\<open>_do_download\<close> and of \<^verbatim>\<open>_verify_download\<close>, in order.
\<close>

datatype event =
    Log level string
  | Call_do_download path
  | Call_verify_download path bool

text \<open>
  The state holds the object \<^verbatim>\<open>self\<close> (Python could assign to its attributes), the local
  file system and the trace.
\<close>

record state =
  self :: artifact
  files :: "path \<rightharpoonup> node"
  trace :: "event list"

definition log_info :: "string \<Rightarrow> state \<Rightarrow> state" where
  "log_info msg s = s\<lparr>trace := trace s @ [Log INFO msg]\<rparr>"

definition log_warning :: "string \<Rightarrow> state \<Rightarrow> state" where
  "log_warning msg s = s\<lparr>trace := trace s @ [Log WARNING msg]\<rparr>"

definition called :: "event \<Rightarrow> state \<Rightarrow> state" where
  "called ev s = s\<lparr>trace := trace s @ [ev]\<rparr>"

definition path_exists :: "state \<Rightarrow> path \<Rightarrow> bool" where
  "path_exists s p \<longleftrightarrow> files s p \<noteq> None"

definition path_isdir :: "state \<Rightarrow> path \<Rightarrow> bool" where
  "path_isdir s p \<longleftrightarrow> files s p = Some Dir"

text \<open>\<^verbatim>\<open>os.path.join\<close> of two components, as \<^verbatim>\<open>posixpath\<close> has it.\<close>

definition os_path_join :: "path \<Rightarrow> path \<Rightarrow> path" where
  "os_path_join a b =
     (if prefix ''/'' b then b
      else if a = [] \<or> suffix ''/'' a then a @ b
      else a @ ''/'' @ b)"

text \<open>The number of calls of \<^verbatim>\<open>_do_download\<close> in a trace.\<close>

fun is_download :: "event \<Rightarrow> bool" where
  "is_download (Call_do_download p) = True"
| "is_download (Log l m) = False"
| "is_download (Call_verify_download p b) = False"

fun is_verify :: "event \<Rightarrow> bool" where
  "is_verify (Call_verify_download p b) = True"
| "is_verify (Log l m) = False"
| "is_verify (Call_do_download p) = False"

definition downloads :: "state \<Rightarrow> nat" where
  "downloads s = length (filter is_download (trace s))"

definition verifications :: "state \<Rightarrow> nat" where
  "verifications s = length (filter is_verify (trace s))"

subsection \<open>\<^verbatim>\<open>_md5sum\<close>\<close>

text \<open>
  An open binary file: its content and the read position. \<^verbatim>\<open>f.read(n)\<close> on a buffered
  binary file of CPython (64 bit):
  \<^item> raises \<^verbatim>\<open>ValueError\<close> when \<open>n\<close> is below \<open>-1\<close>;
  \<^item> returns all of the rest when \<open>n\<close> is \<open>-1\<close>;
  \<^item> raises \<^verbatim>\<open>OverflowError\<close> when \<open>n\<close> is \<open>2 ^ 63 - 1\<close> (\<^verbatim>\<open>sys.maxsize\<close>) or more;
  \<^item> raises \<^verbatim>\<open>MemoryError\<close> when \<open>n\<close> is more than it can allocate (\<open>lim\<close>), as it
    allocates the \<open>n\<close> bytes before it reads;
  \<^item> otherwise returns the next \<open>n\<close> bytes, fewer at the end of the file, and moves the
    position past them.
\<close>

record file_obj =
  content :: bytes
  pos :: nat

definition file_read :: "nat \<Rightarrow> int \<Rightarrow> file_obj \<Rightarrow> exn + bytes \<times> file_obj" where
  "file_read lim n f =
     (let rest = drop (pos f) (content f) in
      if n < - 1 then Inl ValueError
      else if n = - 1 then Inr (rest, f\<lparr>pos := pos f + length rest\<rparr>)
      else if 2 ^ 63 - 1 \<le> n then Inl OverflowError
      else if int lim < n then Inl MemoryError
      else Inr (take (nat n) rest, f\<lparr>pos := pos f + length (take (nat n) rest)\<rparr>))"

text \<open>
  The loop \<^verbatim>\<open>for chunk in iter(lambda: f.read(chunksize), ""): if chunk: md5.update(chunk) else: break\<close>.
  An exception of the read ends it; \<^verbatim>\<open>iter\<close> stops when the value read equals the
  sentinel; the body breaks on a falsy (empty) chunk. Nothing is assumed about
  termination: \<open>None\<close> is a loop that runs forever.
\<close>

partial_function (option) md5_loop ::
  "'h md5_impl \<Rightarrow> nat \<Rightarrow> int \<Rightarrow> file_obj \<Rightarrow> 'h \<Rightarrow> (exn + 'h) option" where
  "md5_loop H lim chunksize f md5 =
     (case file_read lim chunksize f of
        Inl e \<Rightarrow> Some (Inl e)
      | Inr (chunk, f') \<Rightarrow>
          if PyBytes chunk = PyStr [] then Some (Inr md5)
          else if chunk \<noteq> [] then md5_loop H lim chunksize f' (md5_update H md5 chunk)
          else Some (Inr md5))"

definition md5sum ::
  "'h md5_impl \<Rightarrow> nat \<Rightarrow> (path \<rightharpoonup> node) \<Rightarrow> path \<Rightarrow> int \<Rightarrow> (exn + string) option" where
  "md5sum H lim fs fspath chunksize =
     (case fs fspath of
        None \<Rightarrow> Some (Inl (FileNotFoundError fspath))
      | Some Dir \<Rightarrow> Some (Inl (IsADirectoryError fspath))
      | Some (File c) \<Rightarrow>
          (case md5_loop H lim chunksize \<lparr>content = c, pos = 0\<rparr> (md5_new H) of
             None \<Rightarrow> None
           | Some (Inl e) \<Rightarrow> Some (Inl e)
           | Some (Inr md5) \<Rightarrow> Some (Inr (md5_hexdigest H md5))))"

subsection \<open>\<^verbatim>\<open>_do_download\<close>\<close>

definition do_download :: "'h env \<Rightarrow> state \<Rightarrow> path \<Rightarrow> (exn + path) \<times> state" where
  "do_download E s0 fspath =
     (let s = called (Call_do_download fspath) s0 in
      case build (self s) of
        None \<Rightarrow> (Inl AttributeError, s)
      | Some b \<Rightarrow>
          (case get_and_confirm_status E b (url (self s)) of
             Inl e \<Rightarrow> (Inl (External e), s)
           | Inr (chunks, failure) \<Rightarrow>
               if files s fspath = Some Dir then (Inl (IsADirectoryError fspath), s)
               else if open_wb E fspath then
                 (let s' = s\<lparr>files := (files s)(fspath \<mapsto> File (concat chunks))\<rparr> in
                  case failure of
                    Some e \<Rightarrow> (Inl (External e), s')
                  | None \<Rightarrow> (Inr fspath, s'))
               else (Inl (OSError fspath), s)))"

subsection \<open>\<^verbatim>\<open>_verify_download\<close>\<close>

definition broken_message :: "string \<Rightarrow> string \<Rightarrow> string" where
  "broken_message local_md5 base = ''Artifact '' @ local_md5 @ '' seems to be broken, check '' @ base"

definition verify_download :: "'h env \<Rightarrow> state \<Rightarrow> path \<Rightarrow> bool \<Rightarrow> ((exn + bool) \<times> state) option" where
  "verify_download E s0 fspath strict_validation =
     (let s = called (Call_verify_download fspath strict_validation) s0 in
      case md5sum (hashlib_md5 E) (alloc_max E) (files s) fspath (2 ^ 20) of
        None \<Rightarrow> None
      | Some (Inl e) \<Rightarrow> Some (Inl e, s)
      | Some (Inr local_md5) \<Rightarrow>
          (case build (self s) of
             None \<Rightarrow> Some (Inl AttributeError, s)
           | Some b \<Rightarrow>
               (case validate_for_build E (baseurl b) local_md5 (filename (self s))
                       (job_full_name b) (buildno b) of
                  Inl e \<Rightarrow> Some (Inl (External e), s)
                | Inr (valid, unknown) \<Rightarrow>
                    if \<not> valid \<or> (unknown \<and> strict_validation)
                    then Some (Inl (ArtifactBroken (broken_message local_md5 (baseurl b))), s)
                    else Some (Inr True, s))))"

subsection \<open>\<^verbatim>\<open>save\<close> and \<^verbatim>\<open>save_to_dir\<close>\<close>

text \<open>Lines 51 to 56 of \<^verbatim>\<open>save\<close>: the two log calls before the branch.\<close>

definition save_header :: "state \<Rightarrow> path \<Rightarrow> state" where
  "save_header s fspath =
     (let s1 = log_info (''Saving artifact @ '' @ url (self s) @ '' to '' @ fspath) s in
      if \<not> suffix (filename (self s1)) fspath
      then log_warning (''Attempt to change the filename of artifact '' @ filename (self s1)
                          @ '' on save.'') s1
      else s1)"

text \<open>
  Lines 75 to 77 of \<^verbatim>\<open>save\<close>, where every branch that does not return ends:
  \<^verbatim>\<open>filepath = self._do_download(fspath); self._verify_download(filepath, strict_validation); return fspath\<close>.
\<close>

definition download_and_verify :: "'h env \<Rightarrow> state \<Rightarrow> path \<Rightarrow> bool \<Rightarrow> ((exn + path) \<times> state) option" where
  "download_and_verify E s fspath strict_validation =
     (case do_download E s fspath of
        (Inl e, s1) \<Rightarrow> Some (Inl e, s1)
      | (Inr filepath, s1) \<Rightarrow>
          (case verify_download E s1 filepath strict_validation of
             None \<Rightarrow> None
           | Some (Inl e, s2) \<Rightarrow> Some (Inl e, s2)
           | Some (Inr v, s2) \<Rightarrow> Some (Inr fspath, s2)))"

definition save :: "'h env \<Rightarrow> state \<Rightarrow> path \<Rightarrow> bool \<Rightarrow> ((exn + path) \<times> state) option" where
  "save E s fspath strict_validation =
     (let s1 = save_header s fspath in
      if path_exists s1 fspath then
        (case build (self s1) of
           Some b \<Rightarrow>
             (case verify_download E s1 fspath strict_validation of
                None \<Rightarrow> None
              | Some (Inr v, s2) \<Rightarrow>
                  if v then
                    Some (Inr fspath,
                          log_info (''Local copy of '' @ filename (self s2) @ '' is already up to date.'') s2)
                  else download_and_verify E s2 fspath strict_validation
              | Some (Inl (ArtifactBroken m), s2) \<Rightarrow>
                  download_and_verify E
                    (log_warning ''Jenkins artifact could not be identified.'' s2)
                    fspath strict_validation
              | Some (Inl e, s2) \<Rightarrow> Some (Inl e, s2))
         | None \<Rightarrow>
             download_and_verify E
               (log_info ''This file did not originate from Jenkins, so cannot check.'' s1)
               fspath strict_validation)
      else
        download_and_verify E (log_info ''Local file is missing, downloading new.'' s1)
          fspath strict_validation)"

definition save_to_dir :: "'h env \<Rightarrow> state \<Rightarrow> path \<Rightarrow> bool \<Rightarrow> ((exn + path) \<times> state) option" where
  "save_to_dir E s dirpath strict_validation =
     (if \<not> path_exists s dirpath then Some (Inl AssertionError, s)
      else if \<not> path_isdir s dirpath then Some (Inl AssertionError, s)
      else save E s (os_path_join dirpath (filename (self s))) strict_validation)"

subsection \<open>A small environment to run the model in\<close>

text \<open>
  A stand-in for the hash: the state is the sum of the bytes fed so far and the digest
  tells its parity. It obeys the streaming law.
\<close>

definition toy_md5 :: "nat md5_impl" where
  "toy_md5 =
     \<lparr>md5_new = 0,
      md5_update = (\<lambda>h bs. h + sum_list (map unat bs)),
      md5_hexdigest = (\<lambda>h. if even h then ''0'' else ''1'')\<rparr>"

text \<open>
  A server whose fingerprint lookup answers \<open>(valid, unknown)\<close> for every checksum and
  whose download delivers the three bytes 1, 2, 3 in two chunks, on a machine where a read
  can allocate up to \<open>2 ^ 30\<close> bytes.
\<close>

definition example_env :: "bool \<Rightarrow> bool \<Rightarrow> nat env" where
  "example_env valid unknown =
     \<lparr>hashlib_md5 = toy_md5,
      validate_for_build = (\<lambda>base md5 name job no. Inr (valid, unknown)),
      get_and_confirm_status = (\<lambda>b u. Inr ([[1, 2], [3]], None)),
      open_wb = (\<lambda>p. True),
      alloc_max = 2 ^ 30\<rparr>"

definition example_build :: build where
  "example_build = \<lparr>job_full_name = ''myjob'', buildno = 5, baseurl = ''http://ci''\<rparr>"

definition example_artifact :: "build option \<Rightarrow> artifact" where
  "example_artifact b =
     \<lparr>filename = ''build.log'', url = ''http://ci/job/myjob/5/artifact/build.log'',
      build = b, relative_path = None\<rparr>"

definition example_state :: "build option \<Rightarrow> (path \<rightharpoonup> node) \<Rightarrow> state" where
  "example_state b fs = \<lparr>self = example_artifact b, files = fs, trace = []\<rparr>"

section \<open>The checksum loop\<close>

lemma file_read_content: "file_read lim n f = Inr (chunk, f') \<Longrightarrow> content f' = content f"
  by (auto simp: file_read_def Let_def split: if_splits)

lemma file_read_pos: "file_read lim n f = Inr (chunk, f') \<Longrightarrow> pos f' = pos f + length chunk"
  by (auto simp: file_read_def Let_def split: if_splits)

lemma take_drop_length: "take k r @ drop (length (take k r)) r = r"
  by (metis append_eq_conv_conj append_take_drop_id)

lemma file_read_rest:
  assumes r: "file_read lim n f = Inr (chunk, f')"
  shows "chunk @ drop (pos f') (content f') = drop (pos f) (content f)"
proof -
  define rest where "rest = drop (pos f) (content f)"
  have c: "chunk = rest \<or> chunk = take (nat n) rest"
    using r by (auto simp: file_read_def Let_def rest_def split: if_splits)
  have "drop (pos f') (content f') = drop (length chunk + pos f) (content f)"
    by (simp add: file_read_content [OF r] file_read_pos [OF r] add.commute)
  also have "\<dots> = drop (length chunk) rest"
    by (simp add: rest_def)
  finally have p: "drop (pos f') (content f') = drop (length chunk) rest" .
  have "chunk @ drop (length chunk) rest = rest"
    using c take_drop_length [of "nat n" rest] by auto
  then show ?thesis using p by (simp add: rest_def)
qed

lemma file_read_empty:
  "0 < n \<Longrightarrow> file_read lim n f = Inr ([], f') \<Longrightarrow> drop (pos f) (content f) = []"
  by (auto simp: file_read_def Let_def split: if_splits)

lemma file_read_served:
  "0 \<le> n \<Longrightarrow> n \<le> int lim \<Longrightarrow> n < 2 ^ 63 - 1 \<Longrightarrow>
     file_read lim n f =
       Inr (take (nat n) (drop (pos f) (content f)),
            f\<lparr>pos := pos f + length (take (nat n) (drop (pos f) (content f)))\<rparr>)"
  by (simp add: file_read_def Let_def)

text \<open>
  The loop comes back from every position of every file, whatever the chunk size: with a
  hash state or with the exception of a read.
\<close>

lemma md5_loop_returns: "\<exists>r. md5_loop H lim n f h = Some r"
proof (induction "length (content f) - pos f" arbitrary: f h rule: less_induct)
  case less
  show ?case
  proof (cases "file_read lim n f")
    case (Inl e)
    then show ?thesis
      by (subst md5_loop.simps) simp
  next
    case (Inr cf)
    then obtain chunk f' where r: "file_read lim n f = Inr (chunk, f')"
      by (cases cf) simp
    show ?thesis
    proof (cases "chunk = []")
      case True
      then show ?thesis
        by (subst md5_loop.simps) (simp add: r)
    next
      case False
      have "length chunk \<le> length (content f) - pos f"
        using arg_cong [OF file_read_rest [OF r], of length] by simp
      moreover have "0 < length chunk"
        using False by simp
      moreover have "length (content f') - pos f' = length (content f) - (pos f + length chunk)"
        by (simp add: file_read_content [OF r] file_read_pos [OF r])
      ultimately have "length (content f') - pos f' < length (content f) - pos f"
        by linarith
      from less [OF this] obtain r' where
        "md5_loop H lim n f' (md5_update H h chunk) = Some r'" by blast
      then show ?thesis
        by (subst md5_loop.simps) (simp add: r False)
    qed
  qed
qed

text \<open>
  Under the streaming law, and with a chunk size that a read can serve, the loop feeds
  exactly the rest of the file.
\<close>

lemma md5_loop_streaming:
  assumes H: "hashlib_streaming H" and n: "0 < n" "n \<le> int lim" "n < 2 ^ 63 - 1"
  shows "md5_loop H lim n f h = Some (Inr (md5_update H h (drop (pos f) (content f))))"
proof (induction "length (content f) - pos f" arbitrary: f h rule: less_induct)
  case less
  obtain chunk f' where r: "file_read lim n f = Inr (chunk, f')"
    using file_read_served [of n lim f] n by simp
  show ?case
  proof (cases "chunk = []")
    case True
    then have "drop (pos f) (content f) = []"
      using file_read_empty [OF n(1)] r by blast
    moreover have "md5_update H h [] = h"
      using H by (simp add: hashlib_streaming_def)
    ultimately show ?thesis
      by (subst md5_loop.simps) (simp add: r True)
  next
    case False
    have "length chunk \<le> length (content f) - pos f"
      using arg_cong [OF file_read_rest [OF r], of length] by simp
    moreover have "0 < length chunk"
      using False by simp
    moreover have "length (content f') - pos f' = length (content f) - (pos f + length chunk)"
      by (simp add: file_read_content [OF r] file_read_pos [OF r])
    ultimately have "length (content f') - pos f' < length (content f) - pos f"
      by linarith
    from less [OF this] have
      "md5_loop H lim n f' (md5_update H h chunk)
         = Some (Inr (md5_update H (md5_update H h chunk) (drop (pos f') (content f'))))" .
    also have "md5_update H (md5_update H h chunk) (drop (pos f') (content f'))
                 = md5_update H h (chunk @ drop (pos f') (content f'))"
      using H by (simp add: hashlib_streaming_def)
    also have "chunk @ drop (pos f') (content f') = drop (pos f) (content f)"
      by (rule file_read_rest [OF r])
    finally show ?thesis
      by (subst md5_loop.simps) (simp add: r False)
  qed
qed


text \<open>With a chunk size that a read cannot serve, the first read raises.\<close>

lemma md5_loop_overflow:
  "2 ^ 63 - 1 \<le> n \<Longrightarrow> md5_loop H lim n f h = Some (Inl OverflowError)"
  by (subst md5_loop.simps) (simp add: file_read_def)


text \<open>The only exceptions of the loop are those of a read.\<close>

lemma file_read_error:
  "file_read lim n f = Inl e \<Longrightarrow> e = ValueError \<or> e = OverflowError \<or> e = MemoryError"
  by (auto simp: file_read_def Let_def split: if_splits)

lemma md5_loop_error:
  "md5_loop H lim n f h = Some (Inl e) \<Longrightarrow> e = ValueError \<or> e = OverflowError \<or> e = MemoryError"
proof (induction "length (content f) - pos f" arbitrary: f h rule: less_induct)
  case less
  show ?case
  proof (cases "file_read lim n f")
    case (Inl e')
    then have "md5_loop H lim n f h = Some (Inl e')"
      by (subst md5_loop.simps) simp
    then show ?thesis using less.prems file_read_error [OF Inl] by simp
  next
    case (Inr cf)
    then obtain chunk f' where r: "file_read lim n f = Inr (chunk, f')"
      by (cases cf) simp
    show ?thesis
    proof (cases "chunk = []")
      case True
      then have "md5_loop H lim n f h = Some (Inr h)"
        by (subst md5_loop.simps) (simp add: r)
      then show ?thesis using less.prems by simp
    next
      case False
      have "length chunk \<le> length (content f) - pos f"
        using arg_cong [OF file_read_rest [OF r], of length] by simp
      moreover have "0 < length chunk"
        using False by simp
      moreover have "length (content f') - pos f' = length (content f) - (pos f + length chunk)"
        by (simp add: file_read_content [OF r] file_read_pos [OF r])
      ultimately have d: "length (content f') - pos f' < length (content f) - pos f"
        by linarith
      have "md5_loop H lim n f h = md5_loop H lim n f' (md5_update H h chunk)"
        by (subst md5_loop.simps) (simp add: r False)
      then show ?thesis using less.hyps [OF d] less.prems by simp
    qed
  qed
qed

lemma md5sum_not_broken: "md5sum H lim fs p n \<noteq> Some (Inl (ArtifactBroken m))"
proof
  assume a: "md5sum H lim fs p n = Some (Inl (ArtifactBroken m))"
  then obtain c where c: "fs p = Some (File c)"
    by (auto simp: md5sum_def split: option.splits node.splits)
  with a have "md5_loop H lim n \<lparr>content = c, pos = 0\<rparr> (md5_new H) = Some (Inl (ArtifactBroken m))"
    by (auto simp: md5sum_def split: option.splits sum.splits)
  from md5_loop_error [OF this] show False by simp
qed

lemma md5sum_returns: "\<exists>r. md5sum H lim fs p n = Some r"
proof (cases "fs p")
  case None
  then show ?thesis by (simp add: md5sum_def)
next
  case (Some nd)
  show ?thesis
  proof (cases nd)
    case Dir
    then show ?thesis using Some by (simp add: md5sum_def)
  next
    case (File c)
    obtain r where "md5_loop H lim n \<lparr>content = c, pos = 0\<rparr> (md5_new H) = Some r"
      using md5_loop_returns [of H lim n "\<lparr>content = c, pos = 0\<rparr>" "md5_new H"] by blast
    then show ?thesis
      using Some File by (cases r) (simp_all add: md5sum_def)
  qed
qed


lemma md5sum_streaming:
  assumes "hashlib_streaming H" and "0 < n" and "n \<le> int lim" and "n < 2 ^ 63 - 1"
      and "fs p = Some (File c)"
  shows "md5sum H lim fs p n = Some (Inr (md5_hexdigest H (md5_update H (md5_new H) c)))"
  using assms md5_loop_streaming [of H n lim "\<lparr>content = c, pos = 0\<rparr>" "md5_new H"]
  by (simp add: md5sum_def)

lemma toy_md5_streaming: "hashlib_streaming toy_md5"
  by (simp add: hashlib_streaming_def toy_md5_def)

text \<open>
  Claim C7, as the code has it. For every file content and every two positive chunk sizes
  that a read can serve (at most what the machine can allocate, and below \<open>2 ^ 63 - 1\<close>),
  \<^verbatim>\<open>_md5sum\<close> returns the same hexadecimal digest, and it is the digest of the whole
  content fed to the hash in one piece. The hash is any that obeys the streaming law of
  \<^verbatim>\<open>hashlib\<close>.
\<close>

theorem md5sum_chunk_size_independent:
  assumes "hashlib_streaming H"
      and "0 < n" and "n \<le> int lim" and "n < 2 ^ 63 - 1"
      and "0 < m" and "m \<le> int lim" and "m < 2 ^ 63 - 1"
      and "fs p = Some (File c)"
  shows "md5sum H lim fs p n = Some (Inr (md5_hexdigest H (md5_update H (md5_new H) c)))
       \<and> md5sum H lim fs p m = md5sum H lim fs p n"
proof -
  have "md5sum H lim fs p n = Some (Inr (md5_hexdigest H (md5_update H (md5_new H) c)))"
    using assms by (intro md5sum_streaming) simp_all
  moreover have "md5sum H lim fs p m = Some (Inr (md5_hexdigest H (md5_update H (md5_new H) c)))"
    using assms by (intro md5sum_streaming) simp_all
  ultimately show ?thesis by simp
qed

theorem md5sum_chunk_size_independent_witness:
  "hashlib_streaming toy_md5
   \<and> md5sum toy_md5 (2 ^ 30) [''a.bin'' \<mapsto> File [1, 2, 4]] ''a.bin'' 2 = Some (Inr ''1'')
   \<and> md5sum toy_md5 (2 ^ 30) [''a.bin'' \<mapsto> File [1, 2, 4]] ''a.bin'' 1048576
       = md5sum toy_md5 (2 ^ 30) [''a.bin'' \<mapsto> File [1, 2, 4]] ''a.bin'' 2"
  using md5sum_chunk_size_independent
          [of toy_md5 2 "2 ^ 30" 1048576 "[''a.bin'' \<mapsto> File [1, 2, 4]]" "''a.bin''" "[1, 2, 4]"]
        toy_md5_streaming
  by (simp add: toy_md5_def)

text \<open>
  The claim as it was stated, for every two positive chunk sizes, fails at the sizes 2 and
  \<open>2 ^ 63\<close>: the first gives a digest, at the second the read raises \<^verbatim>\<open>OverflowError\<close>.
\<close>

theorem md5sum_chunk_size_independent_counterexample:
  "md5sum toy_md5 (2 ^ 30) [''a.bin'' \<mapsto> File [1, 2, 4]] ''a.bin'' 2 = Some (Inr ''1'')
   \<and> md5sum toy_md5 (2 ^ 30) [''a.bin'' \<mapsto> File [1, 2, 4]] ''a.bin'' (2 ^ 63)
       = Some (Inl OverflowError)"
  using md5sum_streaming [OF toy_md5_streaming, of 2 "2 ^ 30" "[''a.bin'' \<mapsto> File [1, 2, 4]]"
                            "''a.bin''" "[1, 2, 4]"]
  by (simp add: md5sum_def md5_loop_overflow) (simp add: toy_md5_def)




section \<open>States and calls\<close>

subsection \<open>What a verification reads and leaves\<close>

lemma called_simps [simp]:
  "self (called ev s) = self s" "files (called ev s) = files s"
  "trace (called ev s) = trace s @ [ev]"
  by (simp_all add: called_def)

lemma log_info_simps [simp]:
  "self (log_info m s) = self s" "files (log_info m s) = files s"
  "trace (log_info m s) = trace s @ [Log INFO m]"
  by (simp_all add: log_info_def)

lemma log_warning_simps [simp]:
  "self (log_warning m s) = self s" "files (log_warning m s) = files s"
  "trace (log_warning m s) = trace s @ [Log WARNING m]"
  by (simp_all add: log_warning_def)

lemma save_header_simps [simp]:
  "self (save_header s p) = self s" "files (save_header s p) = files s"
  "filter is_download (trace (save_header s p)) = filter is_download (trace s)"
  "filter is_verify (trace (save_header s p)) = filter is_verify (trace s)"
  by (simp_all add: save_header_def Let_def)

text \<open>The outcome of a verification, by cases on what it reads.\<close>

lemma verify_download_checked:
  assumes "md5sum (hashlib_md5 E) (alloc_max E) (files s) p (2 ^ 20) = Some (Inr d)"
      and "build (self s) = Some b"
      and "validate_for_build E (baseurl b) d (filename (self s)) (job_full_name b) (buildno b)
             = Inr (valid, unknown)"
  shows "verify_download E s p strict =
           Some (if \<not> valid \<or> (unknown \<and> strict)
                 then Inl (ArtifactBroken (broken_message d (baseurl b)))
                 else Inr True,
                 called (Call_verify_download p strict) s)"
  using assms by (simp add: verify_download_def Let_def)

lemma verify_download_returns:
  "\<exists>r. verify_download E s p strict = Some (r, called (Call_verify_download p strict) s)"
proof -
  obtain r0 where "md5sum (hashlib_md5 E) (alloc_max E) (files s) p (2 ^ 20) = Some r0"
    using md5sum_returns by blast
  then show ?thesis
    by (auto simp: verify_download_def Let_def split: sum.splits option.splits)
qed

lemma verify_download_state:
  "verify_download E s p strict = Some (r, s') \<Longrightarrow> s' = called (Call_verify_download p strict) s"
  using verify_download_returns [of E s p strict] by auto

lemma verify_download_value:
  "verify_download E s p strict = Some (Inr v, s') \<Longrightarrow> v"
  by (auto simp: verify_download_def Let_def split: sum.splits option.splits if_splits)

lemma verify_download_ok_reads:
  "verify_download E s p strict = Some (Inr v, s') \<Longrightarrow>
     (\<exists>c. files s p = Some (File c)) \<and> build (self s) \<noteq> None"
  by (auto simp: verify_download_def md5sum_def Let_def
           split: sum.splits option.splits if_splits node.splits)

lemma verify_download_frame:
  assumes "self t = self s" and "files t = files s"
  shows "map_option fst (verify_download E t p strict) = map_option fst (verify_download E s p strict)"
  using assms
  by (auto simp: verify_download_def Let_def split: sum.splits option.splits)

lemma verify_download_broken:
  assumes "verify_download E s p strict = Some (Inl (ArtifactBroken msg), s')"
  shows "\<exists>b d. build (self s) = Some b
             \<and> md5sum (hashlib_md5 E) (alloc_max E) (files s) p (2 ^ 20) = Some (Inr d)
             \<and> msg = broken_message d (baseurl b)"
proof -
  obtain r where r: "md5sum (hashlib_md5 E) (alloc_max E) (files s) p (2 ^ 20) = Some r"
    using md5sum_returns by blast
  have "r \<noteq> Inl (ArtifactBroken msg)"
    using r md5sum_not_broken [of "hashlib_md5 E" "alloc_max E" "files s" p "2 ^ 20" msg] by auto
  then show ?thesis
    using assms r
    by (cases r) (auto simp: verify_download_def Let_def split: sum.splits option.splits if_splits)
qed

lemma toy_md5sum:
  "0 < n \<Longrightarrow> n \<le> int lim \<Longrightarrow> n < 2 ^ 63 - 1 \<Longrightarrow> fs p = Some (File c) \<Longrightarrow>
     md5sum toy_md5 lim fs p n
       = Some (Inr (md5_hexdigest toy_md5 (md5_update toy_md5 (md5_new toy_md5) c)))"
  by (rule md5sum_streaming [OF toy_md5_streaming])

subsection \<open>Downloading, and the branches of \<^verbatim>\<open>save\<close>\<close>

lemma downloads_simps [simp]:
  "downloads (called (Call_do_download p) s) = downloads s + 1"
  "downloads (called (Call_verify_download p b) s) = downloads s"
  "downloads (log_info m s) = downloads s"
  "downloads (log_warning m s) = downloads s"
  "downloads (save_header s p) = downloads s"
  by (simp_all add: downloads_def)

lemma verifications_simps [simp]:
  "verifications (called (Call_do_download p) s) = verifications s"
  "verifications (called (Call_verify_download p b) s) = verifications s + 1"
  "verifications (log_info m s) = verifications s"
  "verifications (log_warning m s) = verifications s"
  "verifications (save_header s p) = verifications s"
  by (simp_all add: verifications_def)

lemma do_download_frame:
  assumes "do_download E s p = (r, s')"
  shows "self s' = self s" and "trace s' = trace s @ [Call_do_download p]"
  using assms
  by (auto simp: do_download_def Let_def split: option.splits sum.splits if_splits prod.splits)

lemma do_download_ok:
  "do_download E s p = (Inr q, s') \<Longrightarrow> q = p"
  by (auto simp: do_download_def Let_def split: option.splits sum.splits if_splits prod.splits)

lemma do_download_no_build:
  "build (self s) = None \<Longrightarrow>
     do_download E s p = (Inl AttributeError, called (Call_do_download p) s)"
  by (simp add: do_download_def Let_def)

lemma download_and_verify_returns:
  "\<exists>r s'. download_and_verify E s p strict = Some (r, s') \<and> self s' = self s"
proof -
  obtain r s1 where d: "do_download E s p = (r, s1)" by (cases "do_download E s p") simp
  show ?thesis
  proof (cases r)
    case (Inl e)
    then show ?thesis using d do_download_frame(1) [OF d]
      by (simp add: download_and_verify_def)
  next
    case (Inr q)
    obtain r2 where "verify_download E s1 q strict = Some (r2, called (Call_verify_download q strict) s1)"
      using verify_download_returns by blast
    then show ?thesis using d Inr do_download_frame(1) [OF d]
      by (cases r2) (simp_all add: download_and_verify_def)
  qed
qed

lemma download_and_verify_success:
  assumes "download_and_verify E s p strict = Some (Inr q, s')"
  shows "q = p \<and> map_option fst (verify_download E s' p strict) = Some (Inr True)"
proof -
  obtain r s1 where d: "do_download E s p = (r, s1)" by (cases "do_download E s p") simp
  from assms d obtain fp where r: "r = Inr fp"
    by (cases r) (simp_all add: download_and_verify_def)
  have fp: "fp = p" using d r do_download_ok by blast
  from assms d r fp obtain v where
    v: "verify_download E s1 p strict = Some (Inr v, s')" and q: "q = p"
    by (auto simp: download_and_verify_def split: option.splits sum.splits prod.splits)
  have "v" using v verify_download_value by blast
  have s': "s' = called (Call_verify_download p strict) s1"
    using v verify_download_state by blast
  have "map_option fst (verify_download E s' p strict)
          = map_option fst (verify_download E s1 p strict)"
    by (rule verify_download_frame) (simp_all add: s')
  then show ?thesis using v q \<open>v\<close> by simp
qed

lemma download_and_verify_propagates:
  assumes "do_download E s1 p = (Inr fp, s2)"
      and "verify_download E s2 fp strict = Some (Inl e, s3)"
  shows "download_and_verify E s1 p strict = Some (Inl e, s3)"
  using assms by (simp add: download_and_verify_def)

text \<open>The branches of \<open>save\<close>.\<close>

lemma save_missing:
  "\<not> path_exists s p \<Longrightarrow>
     save E s p strict =
       download_and_verify E (log_info ''Local file is missing, downloading new.'' (save_header s p))
         p strict"
  by (simp add: save_def Let_def path_exists_def)

lemma save_no_build_branch:
  "path_exists s p \<Longrightarrow> build (self s) = None \<Longrightarrow>
     save E s p strict =
       download_and_verify E
         (log_info ''This file did not originate from Jenkins, so cannot check.'' (save_header s p))
         p strict"
  by (simp add: save_def Let_def path_exists_def)

lemma save_verified:
  "path_exists s p \<Longrightarrow> build (self s) = Some b \<Longrightarrow>
   verify_download E (save_header s p) p strict = Some (Inr True, s2) \<Longrightarrow>
     save E s p strict =
       Some (Inr p, log_info (''Local copy of '' @ filename (self s2) @ '' is already up to date.'') s2)"
  by (simp add: save_def Let_def path_exists_def)

lemma save_broken:
  "path_exists s p \<Longrightarrow>
   verify_download E (save_header s p) p strict = Some (Inl (ArtifactBroken m), s2) \<Longrightarrow>
     save E s p strict =
       download_and_verify E (log_warning ''Jenkins artifact could not be identified.'' s2) p strict"
proof -
  assume e: "path_exists s p"
    and v: "verify_download E (save_header s p) p strict = Some (Inl (ArtifactBroken m), s2)"
  from verify_download_broken [OF v] obtain b where "build (self s) = Some b" by auto
  then show ?thesis using e v by (simp add: save_def Let_def path_exists_def)
qed

lemma save_other_error:
  "path_exists s p \<Longrightarrow> build (self s) = Some b \<Longrightarrow>
   verify_download E (save_header s p) p strict = Some (Inl e, s2) \<Longrightarrow>
   \<forall>m. e \<noteq> ArtifactBroken m \<Longrightarrow>
     save E s p strict = Some (Inl e, s2)"
  by (cases e) (simp_all add: save_def Let_def path_exists_def)

lemma save_early:
  assumes ex: "path_exists s p" and b: "build (self s) \<noteq> None"
      and v: "map_option fst (verify_download E s p strict) = Some (Inr True)"
  shows "\<exists>s'. save E s p strict = Some (Inr p, s') \<and> files s' = files s
             \<and> self s' = self s \<and> downloads s' = downloads s"
proof -
  obtain r where r: "verify_download E (save_header s p) p strict
                       = Some (r, called (Call_verify_download p strict) (save_header s p))"
    using verify_download_returns by blast
  have "map_option fst (verify_download E (save_header s p) p strict)
          = map_option fst (verify_download E s p strict)"
    by (rule verify_download_frame) simp_all
  then have "r = Inr True" using r v by simp
  moreover obtain b' where "build (self s) = Some b'" using b by auto
  ultimately show ?thesis
    using save_verified [OF ex _ r [unfolded \<open>r = Inr True\<close>], of b'] by simp
qed

lemma save_returns:
  "\<exists>r s'. save E s p strict = Some (r, s') \<and> self s' = self s"
proof (cases "path_exists s p")
  case False
  then show ?thesis
    using download_and_verify_returns
            [of E "log_info ''Local file is missing, downloading new.'' (save_header s p)" p strict]
    by (simp add: save_missing)
next
  case True
  show ?thesis
  proof (cases "build (self s)")
    case None
    then show ?thesis
      using download_and_verify_returns
              [of E "log_info ''This file did not originate from Jenkins, so cannot check.''
                       (save_header s p)" p strict] True
      by (simp add: save_no_build_branch)
  next
    case (Some b)
    obtain r where r: "verify_download E (save_header s p) p strict
                         = Some (r, called (Call_verify_download p strict) (save_header s p))"
      using verify_download_returns by blast
    show ?thesis
    proof (cases r)
      case (Inr v)
      then have "v" using r verify_download_value by blast
      then show ?thesis using save_verified [OF True Some, of E strict] r Inr by simp
    next
      case (Inl e)
      show ?thesis
      proof (cases "\<exists>m. e = ArtifactBroken m")
        case True
        then obtain m where m: "e = ArtifactBroken m" by blast
        show ?thesis
          using save_broken [OF \<open>path_exists s p\<close>, of E strict m] r Inl m
                download_and_verify_returns
                  [of E "log_warning ''Jenkins artifact could not be identified.''
                           (called (Call_verify_download p strict) (save_header s p))" p strict]
          by simp
      next
        case False
        then show ?thesis
          using save_other_error [OF \<open>path_exists s p\<close> Some, of E strict e] r Inl by simp
      qed
    qed
  qed
qed

lemma save_success:
  assumes "save E s p strict = Some (Inr q, s')"
  shows "q = p \<and> map_option fst (verify_download E s' p strict) = Some (Inr True)"
proof (cases "path_exists s p")
  case False
  then have "download_and_verify E
               (log_info ''Local file is missing, downloading new.'' (save_header s p)) p strict
             = Some (Inr q, s')"
    using assms by (simp add: save_missing)
  then show ?thesis by (rule download_and_verify_success)
next
  case True
  show ?thesis
  proof (cases "build (self s)")
    case None
    then have "download_and_verify E
                 (log_info ''This file did not originate from Jenkins, so cannot check.''
                    (save_header s p)) p strict
               = Some (Inr q, s')"
      using assms True by (simp add: save_no_build_branch)
    then show ?thesis by (rule download_and_verify_success)
  next
    case (Some b)
    obtain r where r: "verify_download E (save_header s p) p strict
                         = Some (r, called (Call_verify_download p strict) (save_header s p))"
      using verify_download_returns by blast
    show ?thesis
    proof (cases r)
      case (Inr v)
      then have "v" using r verify_download_value by blast
      then have r': "verify_download E (save_header s p) p strict
                         = Some (Inr True, called (Call_verify_download p strict) (save_header s p))"
        using r Inr by simp
      have s': "q = p" "s' = log_info (''Local copy of '' @ filename (self s) @ '' is already up to date.'')
                       (called (Call_verify_download p strict) (save_header s p))"
        using assms save_verified [OF True Some r'] by auto
      have "map_option fst (verify_download E s' p strict)
              = map_option fst (verify_download E (save_header s p) p strict)"
        by (rule verify_download_frame) (simp_all add: s')
      then show ?thesis using r' s' by simp
    next
      case (Inl e)
      show ?thesis
      proof (cases "\<exists>m. e = ArtifactBroken m")
        case True
        then obtain m where m: "e = ArtifactBroken m" by blast
        have "download_and_verify E
                (log_warning ''Jenkins artifact could not be identified.''
                   (called (Call_verify_download p strict) (save_header s p))) p strict
              = Some (Inr q, s')"
          using save_broken [OF \<open>path_exists s p\<close>, of E strict m] r Inl m assms by simp
        then show ?thesis by (rule download_and_verify_success)
      next
        case False
        then show ?thesis
          using save_other_error [OF \<open>path_exists s p\<close> Some, of E strict e] r Inl assms by simp
      qed
    qed
  qed
qed

subsection \<open>Running the example environment\<close>

lemmas example_defs =
  example_env_def example_state_def example_artifact_def example_build_def

lemma counts_files_update [simp]:
  "downloads (s\<lparr>files := f\<rparr>) = downloads s"
  "verifications (s\<lparr>files := f\<rparr>) = verifications s"
  by (simp_all add: downloads_def verifications_def)

lemma example_state_simps [simp]:
  "self (example_state b fs) = example_artifact b"
  "files (example_state b fs) = fs"
  "trace (example_state b fs) = []"
  "downloads (example_state b fs) = 0"
  "verifications (example_state b fs) = 0"
  by (simp_all add: example_state_def downloads_def verifications_def)

lemma example_artifact_simps [simp]:
  "filename (example_artifact b) = ''build.log''"
  "url (example_artifact b) = ''http://ci/job/myjob/5/artifact/build.log''"
  "build (example_artifact b) = b"
  by (simp_all add: example_artifact_def)

lemma example_env_simps [simp]:
  "hashlib_md5 (example_env v u) = toy_md5"
  "validate_for_build (example_env v u) base d name job no = Inr (v, u)"
  "get_and_confirm_status (example_env v u) b url' = Inr ([[1, 2], [3]], None)"
  "open_wb (example_env v u) p"
  "alloc_max (example_env v u) = 2 ^ 30"
  by (simp_all add: example_env_def)

lemma example_build_simps [simp]:
  "baseurl example_build = ''http://ci''"
  by (simp add: example_build_def)

lemma toy_digest_simps [simp]:
  "md5sum toy_md5 1073741824 (fs(p \<mapsto> File [1, 2, 3])) p 1048576 = Some (Inr ''0'')"
  "md5sum toy_md5 1073741824 [p \<mapsto> File [1, 2, 4]] p 1048576 = Some (Inr ''1'')"
  by (simp_all add: toy_md5sum) (simp_all add: toy_md5_def)

text \<open>The example server: a verification, a download, and a save to a missing file.\<close>

lemma example_verify:
  "verify_download (example_env v u) s p strict =
     (case md5sum toy_md5 (2 ^ 30) (files s) p (2 ^ 20) of
        None \<Rightarrow> None
      | Some (Inl e) \<Rightarrow> Some (Inl e, called (Call_verify_download p strict) s)
      | Some (Inr d) \<Rightarrow>
          (case build (self s) of
             None \<Rightarrow> Some (Inl AttributeError, called (Call_verify_download p strict) s)
           | Some b \<Rightarrow>
               Some (if \<not> v \<or> (u \<and> strict)
                     then Inl (ArtifactBroken (broken_message d (baseurl b))) else Inr True,
                     called (Call_verify_download p strict) s)))"
  by (auto simp: verify_download_def Let_def split: option.splits sum.splits)

lemma example_download:
  "build (self s) = Some b \<Longrightarrow> files s p \<noteq> Some Dir \<Longrightarrow>
     do_download (example_env v u) s p =
       (Inr p, (called (Call_do_download p) s)\<lparr>files := (files s)(p \<mapsto> File [1, 2, 3])\<rparr>)"
  by (simp add: do_download_def Let_def)

lemma example_save_missing:
  "save (example_env True False) (example_state (Some example_build) Map.empty) ''build.log'' False
   = Some (Inr ''build.log'',
       called (Call_verify_download ''build.log'' False)
         ((called (Call_do_download ''build.log'')
            (log_info ''Local file is missing, downloading new.''
               (save_header (example_state (Some example_build) Map.empty) ''build.log'')))
          \<lparr>files := [''build.log'' \<mapsto> File [1, 2, 3]]\<rparr>))"
  by (simp add: save_def Let_def path_exists_def download_and_verify_def example_download
        example_verify)

section \<open>Verification of a file\<close>

text \<open>
  Claim C1, as the code has it. When \<^verbatim>\<open>validate_for_build\<close> returns true,
  \<^verbatim>\<open>_verify_download\<close> returns \<^verbatim>\<open>True\<close> unless the fingerprint is unknown and validation is
  strict; when both hold it raises \<^verbatim>\<open>ArtifactBroken\<close> (the source's comment:
  strict = 404 as invalid). The file is readable with checksum \<open>d\<close> and the artifact has
  the build \<open>b\<close>.
\<close>

theorem verify_download_valid:
  assumes "md5sum (hashlib_md5 E) (alloc_max E) (files s) p (2 ^ 20) = Some (Inr d)"
      and "build (self s) = Some b"
      and "validate_for_build E (baseurl b) d (filename (self s)) (job_full_name b) (buildno b)
             = Inr (True, unknown)"
  shows "verify_download E s p strict =
           Some (if unknown \<and> strict
                 then Inl (ArtifactBroken (broken_message d (baseurl b)))
                 else Inr True,
                 called (Call_verify_download p strict) s)"
  using verify_download_checked [OF assms, of strict] by simp

theorem verify_download_valid_witness:
  "verify_download (example_env True True)
     (example_state (Some example_build) [''build.log'' \<mapsto> File [1, 2, 4]]) ''build.log'' False
   = Some (Inr True,
           called (Call_verify_download ''build.log'' False)
             (example_state (Some example_build) [''build.log'' \<mapsto> File [1, 2, 4]]))"
  using verify_download_valid
          [of "example_env True True"
              "example_state (Some example_build) [''build.log'' \<mapsto> File [1, 2, 4]]"
              "''build.log''" "''1''" example_build True False]
  by (simp add: example_defs toy_md5sum)

text \<open>
  The claim as it was stated, for every value of the two flags, fails where validation
  returns true, the fingerprint is unknown and validation is strict.
\<close>

theorem verify_download_valid_counterexample:
  "validate_for_build (example_env True True) ''http://ci'' ''1'' ''build.log'' ''myjob'' 5
     = Inr (True, True)
   \<and> verify_download (example_env True True)
       (example_state (Some example_build) [''build.log'' \<mapsto> File [1, 2, 4]]) ''build.log'' True
     = Some (Inl (ArtifactBroken ''Artifact 1 seems to be broken, check http://ci''),
             called (Call_verify_download ''build.log'' True)
               (example_state (Some example_build) [''build.log'' \<mapsto> File [1, 2, 4]]))"
  by (simp add: verify_download_def Let_def example_defs toy_md5sum broken_message_def)

text \<open>
  Claim C2. Whenever \<^verbatim>\<open>validate_for_build\<close> returns false, \<^verbatim>\<open>_verify_download\<close> raises
  \<^verbatim>\<open>ArtifactBroken\<close>, whatever \<^verbatim>\<open>strict_validation\<close> and the unknown flag are.
\<close>

theorem verify_download_invalid:
  assumes "md5sum (hashlib_md5 E) (alloc_max E) (files s) p (2 ^ 20) = Some (Inr d)"
      and "build (self s) = Some b"
      and "validate_for_build E (baseurl b) d (filename (self s)) (job_full_name b) (buildno b)
             = Inr (False, unknown)"
  shows "verify_download E s p strict =
           Some (Inl (ArtifactBroken (broken_message d (baseurl b))),
                 called (Call_verify_download p strict) s)"
  using verify_download_checked [OF assms, of strict] by simp

theorem verify_download_invalid_witness:
  "verify_download (example_env False False)
     (example_state (Some example_build) [''build.log'' \<mapsto> File [1, 2, 4]]) ''build.log'' False
   = Some (Inl (ArtifactBroken ''Artifact 1 seems to be broken, check http://ci''),
           called (Call_verify_download ''build.log'' False)
             (example_state (Some example_build) [''build.log'' \<mapsto> File [1, 2, 4]]))"
  using verify_download_invalid
          [of "example_env False False"
              "example_state (Some example_build) [''build.log'' \<mapsto> File [1, 2, 4]]"
              "''build.log''" "''1''" example_build False False]
  by (simp add: example_defs toy_md5sum broken_message_def)

text \<open>
  Claim C6. Whenever \<^verbatim>\<open>_verify_download\<close> raises \<^verbatim>\<open>ArtifactBroken\<close>, the message is
  built from the checksum computed for the file and the base URL of the build's server,
  and so contains both.
\<close>

theorem verify_download_message:
  assumes "verify_download E s p strict = Some (Inl (ArtifactBroken msg), s')"
  shows "\<exists>b d. build (self s) = Some b
             \<and> md5sum (hashlib_md5 E) (alloc_max E) (files s) p (2 ^ 20) = Some (Inr d)
             \<and> msg = ''Artifact '' @ d @ '' seems to be broken, check '' @ baseurl b
             \<and> sublist d msg \<and> sublist (baseurl b) msg"
proof -
  from verify_download_broken [OF assms] obtain b d where
    b: "build (self s) = Some b"
    and d: "md5sum (hashlib_md5 E) (alloc_max E) (files s) p (2 ^ 20) = Some (Inr d)"
    and m: "msg = broken_message d (baseurl b)" by blast
  have "msg = ''Artifact '' @ d @ '' seems to be broken, check '' @ baseurl b"
    using m by (simp add: broken_message_def)
  moreover from this have "sublist d msg"
    unfolding sublist_def by blast
  moreover have "msg = (''Artifact '' @ d @ '' seems to be broken, check '') @ baseurl b @ []"
    using m by (simp add: broken_message_def)
  then have "sublist (baseurl b) msg"
    unfolding sublist_def by blast
  ultimately show ?thesis using b d by blast
qed

theorem verify_download_message_witness:
  "sublist ''1'' ''Artifact 1 seems to be broken, check http://ci''
   \<and> sublist ''http://ci'' ''Artifact 1 seems to be broken, check http://ci''"
proof -
  let ?E = "example_env False False"
  let ?s = "example_state (Some example_build) [''build.log'' \<mapsto> File [1, 2, 4]]"
  have "verify_download ?E ?s ''build.log'' False
          = Some (Inl (ArtifactBroken ''Artifact 1 seems to be broken, check http://ci''),
                  called (Call_verify_download ''build.log'' False) ?s)"
    by (simp add: example_verify broken_message_def)
  from verify_download_message [OF this] show ?thesis
    by auto
qed

text \<open>
  Claim C9. \<^verbatim>\<open>_verify_download\<close> always comes back, and then it has either returned
  \<^verbatim>\<open>True\<close> or raised: no caller sees a false result.
\<close>

theorem verify_download_only_True:
  "\<exists>r s'. verify_download E s p strict = Some (r, s') \<and> (r = Inr True \<or> (\<exists>e. r = Inl e))"
proof -
  obtain r where r: "verify_download E s p strict = Some (r, called (Call_verify_download p strict) s)"
    using verify_download_returns by blast
  show ?thesis
  proof (cases r)
    case (Inl e)
    then show ?thesis using r by blast
  next
    case (Inr v)
    then have v using r verify_download_value by blast
    then show ?thesis using r Inr by simp
  qed
qed

theorem verify_download_only_True_witness:
  "\<exists>r s'. verify_download (example_env True False)
       (example_state (Some example_build) [''build.log'' \<mapsto> File [1, 2, 4]]) ''build.log'' True
         = Some (r, s')
     \<and> (r = Inr True \<or> (\<exists>e. r = Inl e))"
  by (rule verify_download_only_True)

section \<open>Saving\<close>

text \<open>
  Claim C3. Where the destination exists, the artifact has a build and verification of
  the file there succeeds, \<^verbatim>\<open>save\<close> returns the path, leaves the files as they are and
  does not call \<^verbatim>\<open>_do_download\<close>. Hence after any \<^verbatim>\<open>save\<close> that returned, a second
  \<^verbatim>\<open>save\<close> to the same path returns with no further download.
\<close>

theorem save_idempotent:
  "(path_exists s p \<and> build (self s) \<noteq> None
      \<and> verify_download E s p strict = Some (Inr True, s0)
    \<longrightarrow> (\<exists>s'. save E s p strict = Some (Inr p, s') \<and> files s' = files s
              \<and> downloads s' = downloads s))
   \<and> (save E s p strict = Some (Inr q, s1)
    \<longrightarrow> (\<exists>s2. save E s1 p strict = Some (Inr p, s2) \<and> files s2 = files s1
              \<and> downloads s2 = downloads s1))"
proof (intro conjI impI)
  assume "path_exists s p \<and> build (self s) \<noteq> None
            \<and> verify_download E s p strict = Some (Inr True, s0)"
  then have "path_exists s p" and "build (self s) \<noteq> None"
    and "map_option fst (verify_download E s p strict) = Some (Inr True)"
    by simp_all
  from save_early [OF this]
  show "\<exists>s'. save E s p strict = Some (Inr p, s') \<and> files s' = files s
             \<and> downloads s' = downloads s"
    by blast
next
  assume first: "save E s p strict = Some (Inr q, s1)"
  from save_success [OF first]
  have v: "map_option fst (verify_download E s1 p strict) = Some (Inr True)" by simp
  then obtain s0 where v0: "verify_download E s1 p strict = Some (Inr True, s0)"
    by (cases "verify_download E s1 p strict") auto
  from verify_download_ok_reads [OF v0]
  have "path_exists s1 p" and "build (self s1) \<noteq> None"
    by (auto simp: path_exists_def)
  from save_early [OF this v]
  show "\<exists>s2. save E s1 p strict = Some (Inr p, s2) \<and> files s2 = files s1
             \<and> downloads s2 = downloads s1"
    by blast
qed

theorem save_idempotent_witness:
  "(\<exists>s'. save (example_env True False)
            (example_state (Some example_build) [''build.log'' \<mapsto> File [1, 2, 4]])
            ''build.log'' False = Some (Inr ''build.log'', s')
         \<and> files s' = [''build.log'' \<mapsto> File [1, 2, 4]] \<and> downloads s' = 0)
   \<and> (\<exists>s1 s2. save (example_env True False) (example_state (Some example_build) Map.empty)
            ''build.log'' False = Some (Inr ''build.log'', s1)
         \<and> downloads s1 = 1
         \<and> save (example_env True False) s1 ''build.log'' False = Some (Inr ''build.log'', s2)
         \<and> files s2 = files s1 \<and> downloads s2 = 1)"
proof (intro conjI)
  let ?E = "example_env True False"
  let ?s = "example_state (Some example_build) [''build.log'' \<mapsto> File [1, 2, 4]]"
  have "path_exists ?s ''build.log'' \<and> build (self ?s) \<noteq> None
          \<and> verify_download ?E ?s ''build.log'' False
              = Some (Inr True, called (Call_verify_download ''build.log'' False) ?s)"
    by (simp add: path_exists_def example_verify)
  with save_idempotent [of ?s "''build.log''" ?E False]
  show "\<exists>s'. save ?E ?s ''build.log'' False = Some (Inr ''build.log'', s')
             \<and> files s' = [''build.log'' \<mapsto> File [1, 2, 4]] \<and> downloads s' = 0"
    by simp
next
  let ?E = "example_env True False"
  let ?s = "example_state (Some example_build) Map.empty"
  obtain s1 where s1: "save ?E ?s ''build.log'' False = Some (Inr ''build.log'', s1)"
    and d1: "downloads s1 = 1"
    using example_save_missing by simp
  from save_idempotent [of ?s "''build.log''" ?E False _ "''build.log''" s1] s1
  obtain s2 where "save ?E s1 ''build.log'' False = Some (Inr ''build.log'', s2)"
    and "files s2 = files s1" and "downloads s2 = downloads s1"
    by blast
  with s1 d1 show "\<exists>s1 s2. save ?E ?s ''build.log'' False = Some (Inr ''build.log'', s1)
         \<and> downloads s1 = 1
         \<and> save ?E s1 ''build.log'' False = Some (Inr ''build.log'', s2)
         \<and> files s2 = files s1 \<and> downloads s2 = 1"
    by auto
qed

text \<open>
  Claim C4. Once \<^verbatim>\<open>_do_download\<close> has returned, an exception of the verification that
  follows is the outcome of \<^verbatim>\<open>save\<close>: both when the file was missing, and when the file
  was there and its own verification raised \<^verbatim>\<open>ArtifactBroken\<close>, which \<^verbatim>\<open>save\<close> caught
  before it went on to download.
\<close>

theorem save_fresh_failure_propagates:
  assumes "do_download E s1 p = (Inr fp, s2)"
      and "verify_download E s2 fp strict = Some (Inl e, s3)"
  shows "(\<not> path_exists s p
          \<and> s1 = log_info ''Local file is missing, downloading new.'' (save_header s p)
        \<longrightarrow> save E s p strict = Some (Inl e, s3))
       \<and> (path_exists s p
          \<and> verify_download E (save_header s p) p strict = Some (Inl (ArtifactBroken m), s0)
          \<and> s1 = log_warning ''Jenkins artifact could not be identified.'' s0
        \<longrightarrow> save E s p strict = Some (Inl e, s3))"
  using download_and_verify_propagates [OF assms]
  by (auto simp: save_missing save_broken)

theorem save_fresh_failure_propagates_witness:
  "map_option fst (save (example_env False False)
       (example_state (Some example_build) Map.empty) ''build.log'' False)
     = Some (Inl (ArtifactBroken ''Artifact 0 seems to be broken, check http://ci''))
   \<and> map_option fst (save (example_env False False)
       (example_state (Some example_build) [''build.log'' \<mapsto> File [1, 2, 4]]) ''build.log'' False)
     = Some (Inl (ArtifactBroken ''Artifact 0 seems to be broken, check http://ci''))"
proof (intro conjI)
  let ?E = "example_env False False"
  let ?s = "example_state (Some example_build) Map.empty"
  let ?din = "log_info ''Local file is missing, downloading new.'' (save_header ?s ''build.log'')"
  let ?dout = "(called (Call_do_download ''build.log'') ?din)
               \<lparr>files := (files ?din)(''build.log'' \<mapsto> File [1, 2, 3])\<rparr>"
  have d: "do_download ?E ?din ''build.log'' = (Inr ''build.log'', ?dout)"
    by (rule example_download) simp_all
  have v: "verify_download ?E ?dout ''build.log'' False
             = Some (Inl (ArtifactBroken ''Artifact 0 seems to be broken, check http://ci''),
                     called (Call_verify_download ''build.log'' False) ?dout)"
    by (simp add: example_verify broken_message_def)
  have "\<not> path_exists ?s ''build.log''"
    by (simp add: path_exists_def)
  with save_fresh_failure_propagates [OF d v, of ?s]
  show "map_option fst (save ?E ?s ''build.log'' False)
          = Some (Inl (ArtifactBroken ''Artifact 0 seems to be broken, check http://ci''))"
    by simp
next
  let ?E = "example_env False False"
  let ?s = "example_state (Some example_build) [''build.log'' \<mapsto> File [1, 2, 4]]"
  let ?pre = "called (Call_verify_download ''build.log'' False) (save_header ?s ''build.log'')"
  let ?din = "log_warning ''Jenkins artifact could not be identified.'' ?pre"
  let ?dout = "(called (Call_do_download ''build.log'') ?din)
               \<lparr>files := (files ?din)(''build.log'' \<mapsto> File [1, 2, 3])\<rparr>"
  have d: "do_download ?E ?din ''build.log'' = (Inr ''build.log'', ?dout)"
    by (rule example_download) simp_all
  have v: "verify_download ?E ?dout ''build.log'' False
             = Some (Inl (ArtifactBroken ''Artifact 0 seems to be broken, check http://ci''),
                     called (Call_verify_download ''build.log'' False) ?dout)"
    by (simp add: example_verify broken_message_def)
  have pre: "path_exists ?s ''build.log''
       \<and> verify_download ?E (save_header ?s ''build.log'') ''build.log'' False
           = Some (Inl (ArtifactBroken ''Artifact 1 seems to be broken, check http://ci''), ?pre)"
    by (simp add: path_exists_def example_verify broken_message_def)
  with save_fresh_failure_propagates [OF d v, of ?s _ ?pre]
  show "map_option fst (save ?E ?s ''build.log'' False)
          = Some (Inl (ArtifactBroken ''Artifact 0 seems to be broken, check http://ci''))"
    by simp
qed

text \<open>
  With no build, the branch of \<^verbatim>\<open>save\<close> for an existing file goes straight to lines 75 to
  77: no call of \<^verbatim>\<open>_verify_download\<close>, one call of \<^verbatim>\<open>_do_download\<close>. That call raises
  \<^verbatim>\<open>AttributeError\<close> at \<^verbatim>\<open>self.build.get_jenkins_obj()\<close>, before any request is made.
\<close>

lemma save_no_build_outcome:
  assumes "path_exists s p" and "build (self s) = None"
  shows "save E s p strict =
           Some (Inl AttributeError,
                 called (Call_do_download p)
                   (log_info ''This file did not originate from Jenkins, so cannot check.''
                      (save_header s p)))"
  using assms
  by (simp add: save_no_build_branch download_and_verify_def do_download_no_build)

text \<open>
  Claim C5 says that with no build and a file at the destination, \<^verbatim>\<open>save\<close> attempts no
  verification and always goes on to download. The code at such an input: it attempts no
  verification and enters \<^verbatim>\<open>_do_download\<close>, but raises \<^verbatim>\<open>AttributeError\<close> there; nothing
  is downloaded and the file stays as it was.
\<close>

theorem save_untracked_raises:
  "\<exists>s'. save (example_env True False)
       (example_state None [''build.log'' \<mapsto> File [1, 2, 4]]) ''build.log'' False
         = Some (Inl AttributeError, s')
     \<and> trace s' = [Log INFO ''Saving artifact @ http://ci/job/myjob/5/artifact/build.log to build.log'',
                    Log INFO ''This file did not originate from Jenkins, so cannot check.'',
                    Call_do_download ''build.log'']
     \<and> files s' = [''build.log'' \<mapsto> File [1, 2, 4]]
     \<and> verifications s' = 0"
proof -
  let ?s = "example_state None [''build.log'' \<mapsto> File [1, 2, 4]]"
  have "path_exists ?s ''build.log''" and "build (self ?s) = None"
    by (simp_all add: path_exists_def)
  from save_no_build_outcome [OF this, of "example_env True False" False]
  show ?thesis
    by (simp add: save_header_def Let_def)
qed

text \<open>
  Claim C8. \<^verbatim>\<open>save\<close>, \<^verbatim>\<open>save_to_dir\<close> and \<^verbatim>\<open>_verify_download\<close> always come back, by
  return or by exception, and leave the artifact (its filename, url, build and
  relative path) as it was.
\<close>

theorem artifact_unchanged:
  "(\<exists>r s'. save E s p strict = Some (r, s') \<and> self s' = self s)
   \<and> (\<exists>r s'. save_to_dir E s d strict = Some (r, s') \<and> self s' = self s)
   \<and> (\<exists>r s'. verify_download E s p strict = Some (r, s') \<and> self s' = self s)"
proof (intro conjI)
  show "\<exists>r s'. save E s p strict = Some (r, s') \<and> self s' = self s"
    by (rule save_returns)
  show "\<exists>r s'. save_to_dir E s d strict = Some (r, s') \<and> self s' = self s"
    using save_returns [of E s "os_path_join d (filename (self s))" strict]
    by (simp add: save_to_dir_def)
  show "\<exists>r s'. verify_download E s p strict = Some (r, s') \<and> self s' = self s"
    using verify_download_returns [of E s p strict] by auto
qed

theorem artifact_unchanged_witness:
  "(\<exists>r s'. save (example_env False False)
        (example_state (Some example_build) [''build.log'' \<mapsto> File [1, 2, 4]]) ''build.log'' True
          = Some (r, s') \<and> self s' = example_artifact (Some example_build))
   \<and> (\<exists>r s'. save_to_dir (example_env False False)
        (example_state (Some example_build) [''build.log'' \<mapsto> File [1, 2, 4]]) ''out'' True
          = Some (r, s') \<and> self s' = example_artifact (Some example_build))
   \<and> (\<exists>r s'. verify_download (example_env False False)
        (example_state (Some example_build) [''build.log'' \<mapsto> File [1, 2, 4]]) ''build.log'' True
          = Some (r, s') \<and> self s' = example_artifact (Some example_build))"
  using artifact_unchanged
          [of "example_env False False"
              "example_state (Some example_build) [''build.log'' \<mapsto> File [1, 2, 4]]"
              "''build.log''" True "''out''"]
  by simp

end
